theory Spec2Isabelle
  imports Complex_Main "HOL-Library.Multiset" "HOL-Library.Log_Nat" "HOL-Library.Word"
begin

unbundle bit_operations_syntax

section \<open>The YOLO detector of yolo.py\<close>

text \<open>
  The development follows \<^verbatim>\<open>src/yolo.py\<close>: the class \<^verbatim>\<open>YOLO\<close> (configuration,
  model resolution, colour palette, detection on one image) and the function
  \<^verbatim>\<open>detect_video\<close>. Python integers are modelled by \<^typ>\<open>int\<close> and \<^typ>\<open>nat\<close>,
  exceptions by values of the type \<open>error\<close>; \<^verbatim>\<open>/\<close> is true division and \<^verbatim>\<open>//\<close> floor
  division. A Python float is a real number that binary64 represents, and every
  floating-point operation of \<^verbatim>\<open>yolo.py\<close> is the exact operation followed by the
  rounding defined below. Calls into libraries (numpy, Keras, OpenCV, PIL) that decide
  a property are inputs of the model.
\<close>

datatype error =
    AssertionError string
  | IOError string
  | TypeError
  | AttributeError
  | ZeroDivisionError
  | WeightsError

subsection \<open>Floating-point rounding\<close>

text \<open>Rounding to the nearest integer, a tie going to the even one.\<close>

definition round_half_even :: "real \<Rightarrow> int" where
  "round_half_even y =
     (let n = \<lfloor>y\<rfloor>; d = y - of_int n
      in if d < 1 / 2 then n else if 1 / 2 < d then n + 1 else if even n then n else n + 1)"

text \<open>The binary exponent of a positive number: \<open>2 powi e \<le> x < 2 powi (e + 1)\<close>.\<close>

definition exponent :: "real \<Rightarrow> int" where
  "exponent x = (if 1 \<le> x then bitlen \<lfloor>x\<rfloor> - 1 else - bitlen (\<lceil>1 / x\<rceil> - 1))"

text \<open>
  The two IEEE 754 formats numpy and Python use: the number of significand bits and the
  least exponent of a normal number.
\<close>

datatype float_type = Float32 | Float64

fun precision :: "float_type \<Rightarrow> int" where
  "precision Float32 = 24"
| "precision Float64 = 53"

fun emin :: "float_type \<Rightarrow> int" where
  "emin Float32 = - 126"
| "emin Float64 = - 1022"

text \<open>The spacing of the format's values around \<open>x\<close> (constant below the normal range).\<close>

definition quantum :: "float_type \<Rightarrow> real \<Rightarrow> real" where
  "quantum ft x = 2 powi (max (exponent \<bar>x\<bar>) (emin ft) - (precision ft - 1))"

text \<open>
  Rounding of an exact result to the format, to nearest, ties to even: what an IEEE 754
  addition, subtraction, multiplication or division returns, and what Python returns
  for the true division of two integers and for the conversion of an integer to a
  float. Results beyond the largest finite value (infinities, \<^verbatim>\<open>OverflowError\<close>) and
  NaN are outside the model.
\<close>

definition float_round :: "float_type \<Rightarrow> real \<Rightarrow> real" where
  "float_round ft x =
     (if x = 0 then 0 else of_int (round_half_even (x / quantum ft x)) * quantum ft x)"

definition binary64 :: "real \<Rightarrow> real" where
  "binary64 x = float_round Float64 x"

subsection \<open>Rendering: the box edges (lines 148 to 152)\<close>

text \<open>
  \<^verbatim>\<open>np.floor(v + 0.5)\<close>: round half up. The sum is rounded to the float type in which
  numpy computes it, the input \<open>ft\<close>: binary32 or binary64, depending on the element type
  of \<^verbatim>\<open>out_boxes\<close> and on the numpy version.
\<close>

definition round_half_up :: "float_type \<Rightarrow> real \<Rightarrow> int" where
  "round_half_up ft v = \<lfloor>float_round ft (v + 1 / 2)\<rfloor>"

text \<open>
  \<^verbatim>\<open>.astype('int32')\<close> on an integral float: the same integer when it is in the int32
  range; otherwise the conversion is undefined in C and yields an int32 value that
  depends on the platform, the input \<open>oob\<close>. On x86 it is the least int32 value.
\<close>

definition in_int32 :: "int \<Rightarrow> bool" where
  "in_int32 k = (- (2 ^ 31) \<le> k \<and> k < 2 ^ 31)"

definition astype_int32 :: "(int \<Rightarrow> 32 word) \<Rightarrow> int \<Rightarrow> int" where
  "astype_int32 oob k = (if in_int32 k then k else sint (oob k))"

definition int32_indefinite :: "int \<Rightarrow> 32 word" where
  "int32_indefinite k = word_of_int (- (2 ^ 31))"

text \<open>
  \<^verbatim>\<open>top, left, bottom, right = box\<close> and the four assignments that follow; the image
  size is \<^verbatim>\<open>image.size = (width, height)\<close>. The result is
  \<open>(top, left, bottom, right)\<close>.
\<close>

definition clamp_box ::
  "float_type \<Rightarrow> (int \<Rightarrow> 32 word) \<Rightarrow> real \<times> real \<times> real \<times> real \<Rightarrow> int \<times> int \<Rightarrow>
   int \<times> int \<times> int \<times> int" where
  "clamp_box ft oob box image_size =
     (case box of (top_e, left_e, bottom_e, right_e) \<Rightarrow>
      case image_size of (w, h) \<Rightarrow>
        (max 0 (astype_int32 oob (round_half_up ft top_e)),
         max 0 (astype_int32 oob (round_half_up ft left_e)),
         min h (astype_int32 oob (round_half_up ft bottom_e)),
         min w (astype_int32 oob (round_half_up ft right_e))))"

subsection \<open>Configuration and construction (lines 22 to 45)\<close>









subsection \<open>Model resolution (lines 62 to 83)\<close>

text \<open>\<^verbatim>\<open>str.endswith\<close>.\<close>

definition endswith :: "string \<Rightarrow> string \<Rightarrow> bool" where
  "endswith s suffix_s =
     (length suffix_s \<le> length s \<and> drop (length s - length suffix_s) s = suffix_s)"

text \<open>\<^verbatim>\<open>str.startswith\<close>.\<close>

definition startswith :: "string \<Rightarrow> string \<Rightarrow> bool" where
  "startswith s prefix_s = (take (length prefix_s) s = prefix_s)"

text \<open>
  \<^verbatim>\<open>os.path.expanduser\<close>: a path that does not start with a tilde is returned as it is;
  what a leading \<^verbatim>\<open>~\<close> or \<^verbatim>\<open>~user\<close> is replaced by depends on the environment and is the
  input \<open>userhome\<close>.
\<close>

definition expanduser :: "(string \<Rightarrow> string) \<Rightarrow> string \<Rightarrow> string" where
  "expanduser userhome path = (if \<not> startswith path ''~'' then path else userhome path)"

text \<open>
  The calls \<^verbatim>\<open>generate\<close> makes to acquire the network, in the order it makes them,
  and the network it ends with. A loaded artifact is described by the two numbers the
  assertion reads: \<^verbatim>\<open>layers[-1].output_shape[-1]\<close> and \<^verbatim>\<open>len(output)\<close>.
\<close>

datatype model_call =
    Call_load_model string
  | Call_tiny_yolo_body nat nat
  | Call_yolo_body nat nat
  | Call_load_weights string

datatype network =
    Loaded_model int nat
  | Tiny_yolo_body nat nat
  | Yolo_body nat nat

text \<open>
  Inputs: \<open>userhome\<close> as above; \<open>load_model p\<close> is \<open>None\<close> when
  \<^verbatim>\<open>load_model(p, compile=False)\<close> raises, and the depth and head count of the
  artifact otherwise; \<open>load_weights p\<close> tells whether \<^verbatim>\<open>load_weights(p)\<close> returns.
  The bare \<^verbatim>\<open>except\<close> catches every failure of \<^verbatim>\<open>load_model\<close>; the weights are loaded
  from \<^verbatim>\<open>self.model_path\<close>, the path before expansion. In the assertion the true
  division of the two integers and the product with the integer \<^verbatim>\<open>num_classes + 5\<close>,
  converted to a float, are rounded to binary64; the comparison of the integer depth
  with the float is exact.
\<close>

definition generate_model ::
  "(string \<Rightarrow> string) \<Rightarrow> (string \<Rightarrow> (int \<times> nat) option) \<Rightarrow> (string \<Rightarrow> bool) \<Rightarrow>
   string \<Rightarrow> nat \<Rightarrow> nat \<Rightarrow> model_call list \<times> (error + network)" where
  "generate_model userhome load_model load_weights self_model_path num_anchors num_classes =
     (let model_path = expanduser userhome self_model_path in
      if \<not> endswith model_path ''.h5''
      then ([], Inl (AssertionError ''Keras model or weights must be a .h5 file.''))
      else
        let is_tiny_version = (num_anchors = 6) in
        case load_model model_path of
          None \<Rightarrow>
            let (body_call, yolo_model) =
                  (if is_tiny_version
                   then (Call_tiny_yolo_body (num_anchors div 2) num_classes,
                         Tiny_yolo_body (num_anchors div 2) num_classes)
                   else (Call_yolo_body (num_anchors div 3) num_classes,
                         Yolo_body (num_anchors div 3) num_classes));
                calls = [Call_load_model model_path, body_call, Call_load_weights self_model_path]
            in if load_weights self_model_path
               then (calls, Inr yolo_model)
               else (calls, Inl WeightsError)
        | Some (depth, heads) \<Rightarrow>
            if heads = 0 then ([Call_load_model model_path], Inl ZeroDivisionError)
            else if real_of_int depth =
                      binary64 (binary64 (real num_anchors / real heads) *
                                binary64 (real (num_classes + 5)))
            then ([Call_load_model model_path], Inr (Loaded_model depth heads))
            else ([Call_load_model model_path],
                  Inl (AssertionError ''Mismatch between model and given anchor and class sizes'')))"

subsection \<open>Colour palette (lines 87 to 95)\<close>

text \<open>\<^verbatim>\<open>int(x)\<close> on a float: truncation towards zero.\<close>

definition py_int :: "real \<Rightarrow> int" where
  "py_int x = (if 0 \<le> x then \<lfloor>x\<rfloor> else \<lceil>x\<rceil>)"

text \<open>\<^verbatim>\<open>colorsys.hsv_to_rgb\<close> of the standard library, each operation rounded.\<close>

definition hsv_to_rgb :: "real \<Rightarrow> real \<Rightarrow> real \<Rightarrow> real \<times> real \<times> real" where
  "hsv_to_rgb h s v =
     (if s = 0 then (v, v, v)
      else
        let i = py_int (binary64 (h * 6));
            f = binary64 (binary64 (h * 6) - of_int i);
            p = binary64 (v * binary64 (1 - s));
            q = binary64 (v * binary64 (1 - binary64 (s * f)));
            t = binary64 (v * binary64 (1 - binary64 (s * binary64 (1 - f))));
            i = i mod 6
        in if i = 0 then (v, t, p)
           else if i = 1 then (q, v, p)
           else if i = 2 then (p, v, t)
           else if i = 3 then (p, q, v)
           else if i = 4 then (t, p, v)
           else (v, p, q))"

text \<open>\<^verbatim>\<open>x / len(self.class_names)\<close> is the true division of two integers.\<close>

definition hsv_tuples :: "nat \<Rightarrow> (real \<times> real \<times> real) list" where
  "hsv_tuples n = map (\<lambda>x. (binary64 (real x / real n), 1, 1)) [0..<n]"

definition to_255 :: "real \<times> real \<times> real \<Rightarrow> int \<times> int \<times> int" where
  "to_255 x =
     (case x of (r, g, b) \<Rightarrow>
        (py_int (binary64 (r * 255)), py_int (binary64 (g * 255)), py_int (binary64 (b * 255))))"

definition colors_unshuffled :: "nat \<Rightarrow> (int \<times> int \<times> int) list" where
  "colors_unshuffled n = map to_255 (map (\<lambda>(h, s, v). hsv_to_rgb h s v) (hsv_tuples n))"

text \<open>
  The three numpy calls act on the global generator, whose state has the type \<open>'r\<close>.
  Inputs: \<open>seed n\<close> is the state \<^verbatim>\<open>np.random.seed(n)\<close> installs; \<open>shuffle\<close> is
  \<^verbatim>\<open>np.random.shuffle\<close>, giving the permuted list and the advanced state; \<open>fresh\<close> is
  the state \<^verbatim>\<open>np.random.seed(None)\<close> installs from the operating system's entropy;
  \<open>g\<close> is the state of the generator when \<^verbatim>\<open>generate\<close> is entered. The result is
  \<^verbatim>\<open>self.colors\<close> and the state of the generator afterwards.
\<close>

definition generate_colors ::
  "(nat \<Rightarrow> 'r) \<Rightarrow> ('r \<Rightarrow> (int \<times> int \<times> int) list \<Rightarrow> (int \<times> int \<times> int) list \<times> 'r) \<Rightarrow> 'r \<Rightarrow>
   nat \<Rightarrow> 'r \<Rightarrow> (int \<times> int \<times> int) list \<times> 'r" where
  "generate_colors seed shuffle fresh n g =
     (let colors = colors_unshuffled n;
          g1 = seed 10101;
          (colors, g2) = shuffle g1 colors;
          g3 = fresh
      in (colors, g3))"

subsection \<open>Preprocessing (lines 110 to 118)\<close>

text \<open>A PIL image: its size; the pixels are not modelled.\<close>

record image =
  width :: int
  height :: int

text \<open>
  A letterboxed image: the size of the padded image, the scale factor, the size of the
  resized inner image and the offset at which it is pasted.
\<close>

record letterboxed =
  lb_size :: "int \<times> int"
  lb_scale :: real
  lb_inner :: "int \<times> int"
  lb_offset :: "int \<times> int"

text \<open>
  Modelled from the spec: \<^verbatim>\<open>letterbox_image\<close> of \<^verbatim>\<open>yolo3/utils.py\<close>, which is not among
  the sources. The specification (section 4.4): one uniform scale factor
  \<open>min (target_w / src_w) (target_h / src_h)\<close>, a resize that preserves the aspect
  ratio, and centred padding with a fixed fill colour up to exactly the target size. The
  inner size is truncated to whole pixels. A source image with a zero side makes the
  division raise.
\<close>

definition letterbox_image :: "image \<Rightarrow> int \<times> int \<Rightarrow> error + letterboxed" where
  "letterbox_image img target =
     (case target of (w, h) \<Rightarrow>
        if width img = 0 \<or> height img = 0 then Inl ZeroDivisionError
        else
          let scale = min (real_of_int w / real_of_int (width img))
                          (real_of_int h / real_of_int (height img));
              nw = py_int (real_of_int (width img) * scale);
              nh = py_int (real_of_int (height img) * scale)
          in Inr \<lparr>lb_size = (w, h), lb_scale = scale, lb_inner = (nw, nh),
                  lb_offset = ((w - nw) div 2, (h - nh) div 2)\<rparr>)"

text \<open>The image-processing calls \<^verbatim>\<open>detect_image\<close> has made so far.\<close>

datatype image_call = Call_letterbox_image image "int \<times> int"

text \<open>
  The head of \<^verbatim>\<open>detect_image\<close>, up to the assignment of \<^verbatim>\<open>boxed_image\<close>.
  \<^verbatim>\<open>model_image_size\<close> is a pair whose components are integers or \<^verbatim>\<open>None\<close>;
  \<^verbatim>\<open>None % 32\<close> raises a type error; \<^verbatim>\<open>tuple(reversed(...))\<close> swaps the pair.
\<close>

definition boxed_image :: "int option \<times> int option \<Rightarrow> image \<Rightarrow> image_call list \<times> (error + letterboxed)" where
  "boxed_image model_image_size img =
     (if model_image_size \<noteq> (None, None) then
        (case fst model_image_size of
           None \<Rightarrow> ([], Inl TypeError)
         | Some s0 \<Rightarrow>
             if s0 mod 32 \<noteq> 0 then ([], Inl (AssertionError ''Multiples of 32 required''))
             else
               (case snd model_image_size of
                  None \<Rightarrow> ([], Inl TypeError)
                | Some s1 \<Rightarrow>
                    if s1 mod 32 \<noteq> 0 then ([], Inl (AssertionError ''Multiples of 32 required''))
                    else ([Call_letterbox_image img (s1, s0)], letterbox_image img (s1, s0))))
      else
        let new_image_size = (width img - (width img mod 32), height img - (height img mod 32))
        in ([Call_letterbox_image img new_image_size], letterbox_image img new_image_size))"

subsection \<open>The streaming loop (lines 192 to 218)\<close>

text \<open>\<^verbatim>\<open>str\<close> on an integer.\<close>

function str_nat :: "nat \<Rightarrow> string" where
  "str_nat n =
     (if n < 10 then [''0123456789'' ! n] else str_nat (n div 10) @ [''0123456789'' ! (n mod 10)])"
  by pat_completeness auto
termination
  by (relation "measure (\<lambda>n. n)") auto

declare str_nat.simps [simp del]

definition str_int :: "int \<Rightarrow> string" where
  "str_int i = (if i < 0 then ''-'' @ str_nat (nat (- i)) else str_nat (nat i))"

record fps_state =
  accum_time :: real
  curr_fps :: int
  fps :: string
  prev_time :: real

text \<open>
  Lines 201 to 209, with \<open>curr_time\<close> the value \<^verbatim>\<open>timer()\<close> returns at line 201. The
  subtraction and the addition are float operations; so is \<^verbatim>\<open>accum_time - 1\<close>, and the
  comparison with 1 is exact.
\<close>

definition fps_counter_step :: "real \<Rightarrow> 'a fps_state_scheme \<Rightarrow> 'a fps_state_scheme" where
  "fps_counter_step curr_time s =
     (let exec_time = binary64 (curr_time - prev_time s);
          s = s\<lparr>prev_time := curr_time\<rparr>;
          s = s\<lparr>accum_time := binary64 (accum_time s + exec_time)\<rparr>;
          s = s\<lparr>curr_fps := curr_fps s + 1\<rparr>
      in if accum_time s > 1
         then
           (let s = s\<lparr>accum_time := binary64 (accum_time s - 1)\<rparr>;
                s = s\<lparr>fps := ''FPS: '' @ str_int (curr_fps s)\<rparr>
            in s\<lparr>curr_fps := 0\<rparr>)
         else s)"

text \<open>
  The loop state: the four variables of the frame-rate display and the number of frames
  that went through \<^verbatim>\<open>detect_image\<close> and were shown.
\<close>

record video_state = fps_state +
  frames_done :: nat

text \<open>
  The capture source is the list of the frames it still holds: \<^verbatim>\<open>vid.read()\<close> returns
  \<^verbatim>\<open>(True, frame)\<close> and advances while there is one, and \<^verbatim>\<open>(False, None)\<close> afterwards.
  \<^verbatim>\<open>return_value\<close> is not read again; \<^verbatim>\<open>Image.fromarray(None)\<close> raises. Inputs:
  \<open>detect_image\<close> is \<^verbatim>\<open>yolo.detect_image\<close> on a frame; \<open>timer k\<close> is what
  \<^verbatim>\<open>timer()\<close> returns at line 201 in iteration \<open>k\<close> (\<open>timer 0\<close> at line 195);
  \<open>waitKey k\<close> is what \<^verbatim>\<open>cv2.waitKey(1)\<close> returns in iteration \<open>k\<close>. The result is
  the state at the exit of the loop, with the exception that ended it, or \<open>None\<close> after
  \<^verbatim>\<open>break\<close>.
\<close>

fun video_loop ::
  "('f \<Rightarrow> error + 'f) \<Rightarrow> (nat \<Rightarrow> real) \<Rightarrow> (nat \<Rightarrow> int) \<Rightarrow> 'f list \<Rightarrow> video_state \<Rightarrow>
   video_state \<times> error option" where
  "video_loop detect_image timer waitKey [] s = (s, Some AttributeError)"
| "video_loop detect_image timer waitKey (frame # vid) s =
     (case detect_image frame of
        Inl e \<Rightarrow> (s, Some e)
      | Inr result \<Rightarrow>
          let k = Suc (frames_done s);
              s = fps_counter_step (timer k) s;
              s = s\<lparr>frames_done := k\<rparr>
          in if waitKey k AND 0xFF = 113 then (s, None)
             else video_loop detect_image timer waitKey vid s)"

text \<open>
  \<^verbatim>\<open>detect_video\<close>: the number of frames processed, the number of calls of
  \<^verbatim>\<open>yolo.close_session()\<close>, and the exception that left the function, if any.
\<close>

record video_result =
  processed :: nat
  close_session_calls :: nat
  raised :: "error option"

definition detect_video ::
  "('f \<Rightarrow> error + 'f) \<Rightarrow> (nat \<Rightarrow> real) \<Rightarrow> (nat \<Rightarrow> int) \<Rightarrow> bool \<Rightarrow> 'f list \<Rightarrow> video_result" where
  "detect_video detect_image timer waitKey isOpened vid =
     (if \<not> isOpened
      then \<lparr>processed = 0, close_session_calls = 0,
            raised = Some (IOError (''Couldn'' @ [CHR 0x27] @ ''t open webcam or video''))\<rparr>
      else
        let s = \<lparr>accum_time = 0, curr_fps = 0, fps = ''FPS: ??'', prev_time = timer 0,
                 frames_done = 0\<rparr>
        in case video_loop detect_image timer waitKey vid s of
             (s, Some e) \<Rightarrow> \<lparr>processed = frames_done s, close_session_calls = 0, raised = Some e\<rparr>
           | (s, None) \<Rightarrow> \<lparr>processed = frames_done s, close_session_calls = 1, raised = None\<rparr>)"

subsection \<open>Properties the specification words, as predicates\<close>

text \<open>
  The specification's \<open>[0, image dimension)\<close> for the four edges of a rendered box:
  vertical edges against the height, horizontal edges against the width.
\<close>

definition within_image :: "int \<times> int \<times> int \<times> int \<Rightarrow> int \<times> int \<Rightarrow> bool" where
  "within_image box image_size =
     (case box of (top_e, left_e, bottom_e, right_e) \<Rightarrow>
      case image_size of (w, h) \<Rightarrow>
        0 \<le> top_e \<and> top_e < h \<and> 0 \<le> left_e \<and> left_e < w \<and>
        0 \<le> bottom_e \<and> bottom_e < h \<and> 0 \<le> right_e \<and> right_e < w)"

text \<open>
  The specification's crop without padding and without scaling: the content keeps its
  scale, fills the whole target and sits at its origin.
\<close>

definition crop_only :: "letterboxed \<Rightarrow> bool" where
  "crop_only lb = (lb_scale lb = 1 \<and> lb_inner lb = lb_size lb \<and> lb_offset lb = (0, 0))"

text \<open>A valid 8-bit RGB triple.\<close>

definition is_rgb8 :: "int \<times> int \<times> int \<Rightarrow> bool" where
  "is_rgb8 c = (case c of (r, g, b) \<Rightarrow> 0 \<le> r \<and> r \<le> 255 \<and> 0 \<le> g \<and> g \<le> 255 \<and> 0 \<le> b \<and> b \<le> 255)"

section \<open>Theorems\<close>

subsection \<open>Floating-point rounding\<close>

text \<open>
  The rounding is exact on the values of the format, monotone and odd; the bounds and
  exact cases used below follow from these.
\<close>

lemma round_half_even_le: "y \<le> of_int N \<Longrightarrow> round_half_even y \<le> N"
  unfolding round_half_even_def Let_def by (auto; linarith)

lemma round_half_even_ge: "of_int N \<le> y \<Longrightarrow> N \<le> round_half_even y"
  unfolding round_half_even_def Let_def by (auto; linarith)

lemma round_half_even_of_int: "round_half_even (of_int k) = k"
  unfolding round_half_even_def Let_def by simp

lemma round_half_even_mono: "x \<le> y \<Longrightarrow> round_half_even x \<le> round_half_even y"
proof -
  assume xy: "x \<le> y"
  show ?thesis
  proof (cases "\<lfloor>x\<rfloor> = \<lfloor>y\<rfloor>")
    case True
    then show ?thesis using xy unfolding round_half_even_def Let_def by auto
  next
    case False
    then have "\<lfloor>x\<rfloor> < \<lfloor>y\<rfloor>" using xy floor_mono [of x y] by linarith
    then have "\<lfloor>x\<rfloor> + 1 \<le> \<lfloor>y\<rfloor>" by simp
    moreover have "round_half_even x \<le> \<lfloor>x\<rfloor> + 1"
      unfolding round_half_even_def Let_def by auto
    moreover have "\<lfloor>y\<rfloor> \<le> round_half_even y"
      unfolding round_half_even_def Let_def by auto
    ultimately show ?thesis by linarith
  qed
qed

lemma real_le_two_power: "(a::int) \<le> 2 ^ m \<Longrightarrow> real_of_int a \<le> 2 ^ m"
  by (metis of_int_le_iff of_int_numeral of_int_power)

lemma two_power_le_real: "2 ^ m \<le> (a::int) \<Longrightarrow> 2 ^ m \<le> real_of_int a"
  by (metis of_int_le_iff of_int_numeral of_int_power)

lemma exponent_bounds:
  assumes "0 < x"
  shows "2 powi exponent x \<le> x \<and> x < 2 powi (exponent x + 1)"
proof (cases "1 \<le> x")
  case True
  define n where "n = \<lfloor>x\<rfloor>"
  have n: "0 < n" using True unfolding n_def by linarith
  from bitlen_bounds [OF n] have b: "2 ^ nat (bitlen n - 1) \<le> n" "n < 2 ^ nat (bitlen n)" by auto
  have k: "1 \<le> bitlen n" using n by (simp add: bitlen_alt_def)
  have e: "exponent x = bitlen n - 1" using True by (simp add: exponent_def n_def)
  have "(2::real) ^ nat (bitlen n - 1) \<le> real_of_int n" using b(1) by (rule two_power_le_real)
  also have "real_of_int n \<le> x" unfolding n_def by linarith
  finally have l: "2 powi (bitlen n - 1) \<le> x" using k by (simp add: power_int_def)
  have "n + 1 \<le> 2 ^ nat (bitlen n)" using b(2) by linarith
  then have "real_of_int (n + 1) \<le> (2::real) ^ nat (bitlen n)" by (rule real_le_two_power)
  moreover have "x < real_of_int (n + 1)" unfolding n_def by linarith
  ultimately have "x < (2::real) ^ nat (bitlen n)" by linarith
  then have u: "x < 2 powi (bitlen n)" using k by (simp add: power_int_def)
  from l u e show ?thesis by simp
next
  case False
  with assms have x1: "x < 1" by simp
  define M where "M = \<lceil>1 / x\<rceil>"
  have "1 < 1 / x" using assms x1 by simp
  then have M: "0 < M - 1" unfolding M_def by linarith
  define k where "k = bitlen (M - 1)"
  from bitlen_bounds [OF M] have b: "2 ^ nat (k - 1) \<le> M - 1" "M - 1 < 2 ^ nat k"
    unfolding k_def by auto
  have k: "1 \<le> k" using M unfolding k_def by (simp add: bitlen_alt_def)
  have e: "exponent x = - k" using False by (simp add: exponent_def M_def k_def)
  have "M \<le> 2 ^ nat k" using b(2) by linarith
  then have "real_of_int M \<le> (2::real) ^ nat k" by (rule real_le_two_power)
  moreover have "1 / x \<le> real_of_int M" unfolding M_def by linarith
  ultimately have "1 / x \<le> 2 ^ nat k" by linarith
  then have "1 \<le> 2 ^ nat k * x" using assms by (simp add: field_simps)
  then have l: "2 powi (- k) \<le> x" using k
    by (simp add: power_int_def field_simps)
  have "(2::real) ^ nat (k - 1) \<le> real_of_int (M - 1)" using b(1) by (rule two_power_le_real)
  moreover have "real_of_int (M - 1) < 1 / x" unfolding M_def by linarith
  ultimately have "2 ^ nat (k - 1) < 1 / x" by linarith
  then have "2 ^ nat (k - 1) * x < 1" using assms by (simp add: field_simps)
  then have u: "x < 2 powi (- k + 1)" using k
    by (cases "k = 1") (auto simp: power_int_def field_simps nat_diff_distrib)
  from l u e show ?thesis by simp
qed


lemma two_powi_pos: "0 < (2::real) powi e"
  by (simp add: zero_less_power_int)

lemma two_powi_less_imp: "(2::real) powi a < 2 powi b \<Longrightarrow> a < b"
  using power_int_increasing [of b a "2::real"] by (cases "a < b") auto

lemma two_powi_nonneg_int: "0 \<le> k \<Longrightarrow> (2::real) powi k = real_of_int (2 ^ nat k)"
  by (simp add: power_int_def)

lemma quantum_pos: "0 < quantum ft x"
  by (simp add: quantum_def two_powi_pos)

lemma exponent_mono:
  assumes "0 < x" and "x \<le> y"
  shows "exponent x \<le> exponent y"
proof -
  have y: "0 < y" using assms by simp
  from exponent_bounds [OF assms(1)] exponent_bounds [OF y] assms(2)
  have "(2::real) powi exponent x < 2 powi (exponent y + 1)" by linarith
  from two_powi_less_imp [OF this] show ?thesis by simp
qed

lemma round_half_even_minus: "round_half_even (- y) = - round_half_even y"
proof (cases "y = of_int \<lfloor>y\<rfloor>")
  case True
  then obtain k where "y = of_int k" by metis
  then show ?thesis by (simp add: round_half_even_of_int flip: of_int_minus)
next
  case False
  then have f: "\<lfloor>- y\<rfloor> = - \<lfloor>y\<rfloor> - 1" by (simp add: floor_minus ceiling_altdef)
  have d: "0 < y - of_int \<lfloor>y\<rfloor>" using False by linarith
  show ?thesis
    unfolding round_half_even_def Let_def f using d
    by (auto simp: field_simps)
qed

lemma float_round_minus: "float_round ft (- x) = - float_round ft x"
  by (simp add: float_round_def quantum_def round_half_even_minus)

lemma float_round_nonneg: "0 \<le> x \<Longrightarrow> 0 \<le> float_round ft x"
proof -
  assume "0 \<le> x"
  then have "real_of_int 0 \<le> x / quantum ft x" using quantum_pos [of ft x] by simp
  from round_half_even_ge [OF this] show ?thesis
    using quantum_pos [of ft x] by (simp add: float_round_def)
qed

lemma float_round_exact:
  assumes m: "\<bar>m\<bar> < 2 ^ nat (precision ft)"
    and j: "emin ft - (precision ft - 1) \<le> j"
  shows "float_round ft (of_int m * 2 powi j) = of_int m * 2 powi j"
proof (cases "m = 0")
  case True
  then show ?thesis by (simp add: float_round_def)
next
  case False
  define x where "x = real_of_int m * 2 powi j"
  have p: "0 < precision ft" by (cases ft) auto
  have ax: "\<bar>x\<bar> = real_of_int \<bar>m\<bar> * 2 powi j"
    unfolding x_def by (simp add: abs_mult)
  have x0: "0 < \<bar>x\<bar>" using False unfolding x_def by (simp add: two_powi_pos less_le)
  have "real_of_int \<bar>m\<bar> < 2 ^ nat (precision ft)"
    using m by (metis of_int_less_iff of_int_numeral of_int_power)
  then have "real_of_int \<bar>m\<bar> < 2 powi (precision ft)" using p by (simp add: power_int_def)
  then have "\<bar>x\<bar> < 2 powi (precision ft) * 2 powi j"
    unfolding ax using two_powi_pos [of j] by simp
  then have "\<bar>x\<bar> < 2 powi (precision ft + j)" by (simp add: power_int_add)
  with exponent_bounds [OF x0] have "(2::real) powi exponent \<bar>x\<bar> < 2 powi (precision ft + j)" by linarith
  from two_powi_less_imp [OF this] have e: "exponent \<bar>x\<bar> - (precision ft - 1) \<le> j" by simp
  define q where "q = max (exponent \<bar>x\<bar>) (emin ft) - (precision ft - 1)"
  have q: "q \<le> j" unfolding q_def using e j by (simp add: max_def)
  have u: "quantum ft x = 2 powi q" by (simp add: quantum_def q_def)
  have "2 powi j = 2 powi (j - q) * (2::real) powi q"
    by (simp flip: power_int_add)
  then have xq: "x = real_of_int (m * 2 ^ nat (j - q)) * 2 powi q"
    unfolding x_def using q by (simp add: two_powi_nonneg_int)
  then have "x / 2 powi q = real_of_int (m * 2 ^ nat (j - q))"
    using two_powi_pos [of q] by simp
  then have r: "round_half_even (x / quantum ft x) = m * 2 ^ nat (j - q)"
    by (simp only: u round_half_even_of_int)
  have "float_round ft x = real_of_int (round_half_even (x / quantum ft x)) * quantum ft x"
    using x0 by (simp add: float_round_def)
  also have "\<dots> = real_of_int (m * 2 ^ nat (j - q)) * 2 powi q"
    unfolding r by (simp only: u)
  also have "\<dots> = x" by (rule xq [symmetric])
  finally show ?thesis by (simp only: x_def)
qed

lemma float_round_of_int:
  "\<bar>k\<bar> < 2 ^ nat (precision ft) \<Longrightarrow> float_round ft (of_int k) = of_int k"
  using float_round_exact [of k ft 0] by (cases ft) auto

lemma float_round_half:
  "\<bar>k\<bar> < 2 ^ nat (precision ft) \<Longrightarrow> float_round ft (of_int k / 2) = of_int k / 2"
  using float_round_exact [of k ft "- 1"] by (cases ft) (auto simp: power_int_minus)

lemma float_round_mono_pos:
  assumes "0 < x" and "x \<le> y"
  shows "float_round ft x \<le> float_round ft y"
proof -
  have y: "0 < y" using assms by simp
  define p where "p = precision ft"
  have p: "1 \<le> p" unfolding p_def by (cases ft) auto
  define qx where "qx = max (exponent x) (emin ft)"
  define qy where "qy = max (exponent y) (emin ft)"
  have ux: "quantum ft x = 2 powi (qx - (p - 1))"
    using assms(1) by (simp add: quantum_def qx_def p_def)
  have uy: "quantum ft y = 2 powi (qy - (p - 1))"
    using y by (simp add: quantum_def qy_def p_def)
  have fx: "float_round ft x = of_int (round_half_even (x / quantum ft x)) * quantum ft x"
    using assms(1) by (simp add: float_round_def)
  have fy: "float_round ft y = of_int (round_half_even (y / quantum ft y)) * quantum ft y"
    using y by (simp add: float_round_def)
  have le: "qx \<le> qy" unfolding qx_def qy_def using exponent_mono [OF assms] by simp
  show ?thesis
  proof (cases "qx = qy")
    case True
    then have u: "quantum ft x = quantum ft y" by (simp add: ux uy)
    have "x / quantum ft y \<le> y / quantum ft y"
      using assms(2) quantum_pos [of ft y] by (simp add: divide_right_mono)
    from round_half_even_mono [OF this] show ?thesis
      unfolding fx fy u using quantum_pos [of ft y] by simp
  next
    case False
    with le have lt: "qx < qy" by simp
    then have ey: "qy = exponent y" unfolding qx_def qy_def by (simp add: max_def split: if_splits)
    have a: "x < 2 powi (qx + 1)"
    proof -
      have "exponent x + 1 \<le> qx + 1" unfolding qx_def by simp
      from power_int_increasing [OF this, of "2::real"] exponent_bounds [OF assms(1)]
      show ?thesis by simp
    qed
    have "2 powi (qx + 1) = 2 powi p * (2::real) powi (qx - (p - 1))"
      by (simp flip: power_int_add)
    then have "x / quantum ft x \<le> 2 powi p"
      using a two_powi_pos [of "qx - (p - 1)"] by (simp add: ux field_simps)
    then have "x / quantum ft x \<le> real_of_int (2 ^ nat p)"
      using p by (simp add: two_powi_nonneg_int)
    from round_half_even_le [OF this]
    have "real_of_int (round_half_even (x / quantum ft x)) \<le> real_of_int (2 ^ nat p)"
      by linarith
    then have "float_round ft x \<le> real_of_int (2 ^ nat p) * quantum ft x"
      unfolding fx using quantum_pos [of ft x] by (simp add: mult_right_mono)
    also have "\<dots> = 2 powi p * 2 powi (qx - (p - 1))"
      using p by (simp add: two_powi_nonneg_int ux)
    also have "\<dots> = 2 powi (qx + 1)" by (simp flip: power_int_add)
    also have "\<dots> \<le> 2 powi qy"
      using lt by (intro power_int_increasing) auto
    finally have b: "float_round ft x \<le> 2 powi qy" .
    have "2 powi qy = 2 powi (p - 1) * (2::real) powi (qy - (p - 1))"
      by (simp flip: power_int_add)
    moreover have "2 powi qy \<le> y" using exponent_bounds [OF y] by (simp add: ey)
    ultimately have "2 powi (p - 1) \<le> y / quantum ft y"
      using two_powi_pos [of "qy - (p - 1)"] by (simp add: uy field_simps)
    then have "real_of_int (2 ^ nat (p - 1)) \<le> y / quantum ft y"
      using p by (simp add: two_powi_nonneg_int)
    from round_half_even_ge [OF this]
    have "real_of_int (2 ^ nat (p - 1)) \<le> real_of_int (round_half_even (y / quantum ft y))"
      by linarith
    then have "real_of_int (2 ^ nat (p - 1)) * quantum ft y \<le> float_round ft y"
      unfolding fy using quantum_pos [of ft y] by (simp add: mult_right_mono)
    moreover have "real_of_int (2 ^ nat (p - 1)) * quantum ft y = 2 powi qy"
    proof -
      have "real_of_int (2 ^ nat (p - 1)) = 2 powi (p - 1)"
        using p by (simp add: two_powi_nonneg_int)
      then have "real_of_int (2 ^ nat (p - 1)) * quantum ft y =
          2 powi (p - 1) * 2 powi (qy - (p - 1))" by (simp only: uy)
      also have "\<dots> = 2 powi qy" by (simp flip: power_int_add)
      finally show ?thesis .
    qed
    ultimately show ?thesis using b by linarith
  qed
qed

lemma float_round_mono:
  assumes "x \<le> y"
  shows "float_round ft x \<le> float_round ft y"
proof -
  consider "0 < x" | "x \<le> 0" "0 \<le> y" | "y < 0" by linarith
  then show ?thesis
  proof cases
    case 1
    then show ?thesis using assms by (rule float_round_mono_pos)
  next
    case 2
    have "0 \<le> float_round ft (- x)" using 2(1) by (intro float_round_nonneg) simp
    then have "float_round ft x \<le> 0" by (simp add: float_round_minus)
    moreover have "0 \<le> float_round ft y" using 2(2) by (rule float_round_nonneg)
    ultimately show ?thesis by linarith
  next
    case 3
    then have "0 < - y" "- y \<le> - x" using assms by auto
    from float_round_mono_pos [OF this] show ?thesis by (simp add: float_round_minus)
  qed
qed

lemma binary64_mono: "x \<le> y \<Longrightarrow> binary64 x \<le> binary64 y"
  unfolding binary64_def by (rule float_round_mono)

lemma binary64_of_int: "\<bar>k\<bar> < 2 ^ 53 \<Longrightarrow> binary64 (of_int k) = of_int k"
  unfolding binary64_def using float_round_of_int [of k Float64] by simp


lemma binary64_0 [simp]: "binary64 0 = 0"
  by (simp add: binary64_def float_round_def)

lemma binary64_1 [simp]: "binary64 1 = 1"
  using binary64_of_int [of 1] by simp

lemma binary64_between:
  assumes "real_of_int a \<le> x" and "x \<le> real_of_int b" and "\<bar>a\<bar> < 2 ^ 53" and "\<bar>b\<bar> < 2 ^ 53"
  shows "real_of_int a \<le> binary64 x \<and> binary64 x \<le> real_of_int b"
  using binary64_mono [OF assms(1)] binary64_mono [OF assms(2)]
    binary64_of_int [OF assms(3)] binary64_of_int [OF assms(4)]
  by simp

lemma binary64_unit: "0 \<le> x \<Longrightarrow> x \<le> 1 \<Longrightarrow> 0 \<le> binary64 x \<and> binary64 x \<le> 1"
  using binary64_between [of 0 x 1] by simp

text \<open>The equations that evaluate a rounding at a numeral.\<close>

lemmas float_eval = binary64_def float_round_def quantum_def exponent_def round_half_even_def
  compute_bitlen Let_def

text \<open>In binary64, \<open>1.1 - 0.1\<close> is 1 and \<open>7 / 3 * 27\<close> is not 63.\<close>

lemma binary64_example_difference: "binary64 (binary64 (11 / 10) - binary64 (1 / 10)) = 1"
  by (simp add: float_eval)

lemma binary64_example_product:
  "binary64 (binary64 (7 / 3) * binary64 27) = 8866461766385665 / 140737488355328"
  by (simp add: float_eval)

subsection \<open>The streaming loop at the end of the stream\<close>

lemma frames_done_fps_counter_step: "frames_done (fps_counter_step t s) = frames_done s"
  by (simp add: fps_counter_step_def Let_def)

lemma video_loop_end_of_stream:
  assumes "\<forall>k. waitKey k AND 0xFF \<noteq> 113"
    and "\<forall>f \<in> set vid. \<exists>r. detect_image f = Inr r"
  shows "\<exists>s'. video_loop detect_image timer waitKey vid s = (s', Some AttributeError) \<and>
              frames_done s' = frames_done s + length vid"
  using assms(2)
proof (induction vid arbitrary: s)
  case Nil
  then show ?case by simp
next
  case (Cons frame vid)
  then obtain r where r: "detect_image frame = Inr r" by auto
  let ?s = "(fps_counter_step (timer (Suc (frames_done s))) s)\<lparr>frames_done := Suc (frames_done s)\<rparr>"
  from Cons.prems have "\<forall>f \<in> set vid. \<exists>r. detect_image f = Inr r" by simp
  from Cons.IH [OF this, of ?s]
  obtain s' where "video_loop detect_image timer waitKey vid ?s = (s', Some AttributeError)"
    and "frames_done s' = frames_done ?s + length vid" by blast
  with r assms(1) show ?case by (simp add: Let_def)
qed

text \<open>
  The exit by cancellation, for comparison: with the key \<open>q\<close> (code 113) in the second
  iteration the loop is left by \<^verbatim>\<open>break\<close> and the session is closed once.
\<close>

lemma detect_video_cancelled_closes_session:
  "detect_video (\<lambda>f. Inr f) (\<lambda>k. real k / 2) (\<lambda>k. if k = 2 then 113 else - 1) True [1 :: nat, 2, 3] =
     \<lparr>processed = 2, close_session_calls = 1, raised = None\<rparr>"
  by (simp add: detect_video_def Let_def frames_done_fps_counter_step)

text \<open>
  C1. The claim: a capture source that yields N valid frames and then a false read makes
  the loop process exactly N frames, exit cleanly and release the inference session exactly
  once. What the code does: when no key \<open>q\<close> is pressed and \<^verbatim>\<open>detect_image\<close> returns for
  every frame, the N frames are processed, the read after the last one returns
  \<^verbatim>\<open>(False, None)\<close>, \<^verbatim>\<open>return_value\<close> is not tested, \<^verbatim>\<open>Image.fromarray(None)\<close> raises,
  the exception leaves \<^verbatim>\<open>detect_video\<close>, and \<^verbatim>\<open>close_session\<close> is not called.
\<close>

theorem detect_video_end_of_stream_raises:
  assumes "\<forall>k. waitKey k AND 0xFF \<noteq> 113"
    and "\<forall>f \<in> set vid. \<exists>r. detect_image f = Inr r"
  shows "detect_video detect_image timer waitKey True vid =
           \<lparr>processed = length vid, close_session_calls = 0, raised = Some AttributeError\<rparr>"
proof -
  let ?s = "\<lparr>accum_time = 0, curr_fps = 0, fps = ''FPS: ??'', prev_time = timer 0, frames_done = 0\<rparr>"
  from video_loop_end_of_stream [OF assms, of timer ?s]
  obtain s' where "video_loop detect_image timer waitKey vid ?s = (s', Some AttributeError)"
    and "frames_done s' = length vid" by auto
  then show ?thesis by (simp add: detect_video_def)
qed

theorem detect_video_end_of_stream_raises_witness:
  "detect_video (\<lambda>f. Inr f) (\<lambda>k. real k / 2) (\<lambda>k. - 1) True [1 :: nat, 2, 3] =
     \<lparr>processed = 3, close_session_calls = 0, raised = Some AttributeError\<rparr>"
  using detect_video_end_of_stream_raises
          [of "\<lambda>k. - 1" "[1 :: nat, 2, 3]" "\<lambda>f. Inr f" "\<lambda>k. real k / 2"]
  by simp

subsection \<open>Overrides of the configuration\<close>








subsection \<open>Model resolution\<close>

text \<open>
  C10. Model resolution requires the model path to end with \<open>.h5\<close>: when the path, as
  \<^verbatim>\<open>expanduser\<close> returns it, lacks the suffix, \<^verbatim>\<open>generate\<close> stops with the assertion
  error before it calls \<^verbatim>\<open>load_model\<close>, a network constructor or \<^verbatim>\<open>load_weights\<close>,
  whatever these would have done. For a configured path without a leading tilde this is
  the configured path itself.
\<close>

theorem generate_model_requires_h5:
  "(\<not> endswith (expanduser userhome self_model_path) ''.h5'' \<longrightarrow>
      generate_model userhome load_model load_weights self_model_path num_anchors num_classes =
        ([], Inl (AssertionError ''Keras model or weights must be a .h5 file.''))) \<and>
   (\<not> startswith self_model_path ''~'' \<and> \<not> endswith self_model_path ''.h5'' \<longrightarrow>
      generate_model userhome load_model load_weights self_model_path num_anchors num_classes =
        ([], Inl (AssertionError ''Keras model or weights must be a .h5 file.'')))"
  by (simp add: generate_model_def expanduser_def)

theorem generate_model_requires_h5_witness:
  "\<not> startswith ''model_data/yolo.weights'' ''~'' \<and>
   \<not> endswith ''model_data/yolo.weights'' ''.h5'' \<and>
   generate_model (\<lambda>p. ''/home/user'' @ drop 1 p) (\<lambda>p. Some (255, 3)) (\<lambda>p. True)
       ''model_data/yolo.weights'' 9 80 =
     ([], Inl (AssertionError ''Keras model or weights must be a .h5 file.'')) \<and>
   \<not> endswith (expanduser (\<lambda>p. ''/home/user'' @ drop 1 p) ''~/yolo.weights'') ''.h5'' \<and>
   generate_model (\<lambda>p. ''/home/user'' @ drop 1 p) (\<lambda>p. None) (\<lambda>p. True)
       ''~/yolo.weights'' 9 80 =
     ([], Inl (AssertionError ''Keras model or weights must be a .h5 file.''))"
proof -
  have a: "\<not> startswith ''model_data/yolo.weights'' ''~''"
    by (simp add: startswith_def)
  have b: "\<not> endswith ''model_data/yolo.weights'' ''.h5''"
    by (simp add: endswith_def)
  have c: "\<not> endswith (expanduser (\<lambda>p. ''/home/user'' @ drop 1 p) ''~/yolo.weights'') ''.h5''"
    by (simp add: endswith_def expanduser_def startswith_def)
  from a b c
    generate_model_requires_h5 [of "\<lambda>p. ''/home/user'' @ drop 1 p" "''model_data/yolo.weights''"
      "\<lambda>p. Some (255, 3)" "\<lambda>p. True" 9 80]
    generate_model_requires_h5 [of "\<lambda>p. ''/home/user'' @ drop 1 p" "''~/yolo.weights''"
      "\<lambda>p. None" "\<lambda>p. True" 9 80]
  show ?thesis by blast
qed

text \<open>
  C6. Whenever \<^verbatim>\<open>load_model\<close> fails, \<^verbatim>\<open>generate\<close> builds the tiny topology with
  \<open>num_anchors div 2\<close> anchors per head exactly when the anchor count is 6, and the full
  topology with \<open>num_anchors div 3\<close> anchors per head otherwise, and then loads the weights
  from the configured path into that network; the network is the result when the weights
  load, and the error of \<^verbatim>\<open>load_weights\<close> is raised when they do not.
\<close>

theorem generate_model_fallback_topology:
  assumes "endswith (expanduser userhome self_model_path) ''.h5''"
    and "load_model (expanduser userhome self_model_path) = None"
  shows "fst (generate_model userhome load_model load_weights self_model_path num_anchors num_classes) =
           [Call_load_model (expanduser userhome self_model_path),
            (if num_anchors = 6 then Call_tiny_yolo_body (num_anchors div 2) num_classes
             else Call_yolo_body (num_anchors div 3) num_classes),
            Call_load_weights self_model_path] \<and>
         (load_weights self_model_path \<longrightarrow>
            snd (generate_model userhome load_model load_weights self_model_path num_anchors num_classes) =
              Inr (if num_anchors = 6 then Tiny_yolo_body (num_anchors div 2) num_classes
                   else Yolo_body (num_anchors div 3) num_classes)) \<and>
         (\<not> load_weights self_model_path \<longrightarrow>
            snd (generate_model userhome load_model load_weights self_model_path num_anchors num_classes) =
              Inl WeightsError)"
  using assms by (simp add: generate_model_def Let_def)

theorem generate_model_fallback_topology_witness:
  "generate_model (\<lambda>p. ''/home/user'' @ drop 1 p) (\<lambda>p. None) (\<lambda>p. True) ''model_data/yolo.h5'' 6 80 =
     ([Call_load_model ''model_data/yolo.h5'', Call_tiny_yolo_body 3 80,
       Call_load_weights ''model_data/yolo.h5''], Inr (Tiny_yolo_body 3 80)) \<and>
   generate_model (\<lambda>p. ''/home/user'' @ drop 1 p) (\<lambda>p. None) (\<lambda>p. True) ''model_data/yolo.h5'' 9 80 =
     ([Call_load_model ''model_data/yolo.h5'', Call_yolo_body 3 80,
       Call_load_weights ''model_data/yolo.h5''], Inr (Yolo_body 3 80)) \<and>
   generate_model (\<lambda>p. ''/home/user'' @ drop 1 p) (\<lambda>p. None) (\<lambda>p. False) ''model_data/yolo.h5'' 12 80 =
     ([Call_load_model ''model_data/yolo.h5'', Call_yolo_body 4 80,
       Call_load_weights ''model_data/yolo.h5''], Inl WeightsError)"
proof -
  have e: "expanduser (\<lambda>p. ''/home/user'' @ drop 1 p) ''model_data/yolo.h5'' = ''model_data/yolo.h5''"
    by (simp add: expanduser_def startswith_def)
  have h: "endswith (expanduser (\<lambda>p. ''/home/user'' @ drop 1 p) ''model_data/yolo.h5'') ''.h5''"
    unfolding e by (simp add: endswith_def)
  have n: "(\<lambda>p::string. None :: (int \<times> nat) option)
             (expanduser (\<lambda>p. ''/home/user'' @ drop 1 p) ''model_data/yolo.h5'') = None"
    by simp
  from generate_model_fallback_topology [of _ _ "\<lambda>p. None", OF h n, of "\<lambda>p. True" 6 80]
       generate_model_fallback_topology [of _ _ "\<lambda>p. None", OF h n, of "\<lambda>p. True" 9 80]
       generate_model_fallback_topology [of _ _ "\<lambda>p. None", OF h n, of "\<lambda>p. False" 12 80]
  show ?thesis unfolding e by (simp add: prod_eq_iff)
qed





text \<open>
  Where the head count does not divide the anchor count the rounding shows: with 7
  anchors, 3 heads and 22 classes the assertion compares the depth with
  \<open>63.00000000000001\<close>, and an artifact of depth 63 is refused.
\<close>

lemma generate_model_rounded_quotient:
  "generate_model (\<lambda>p. ''/home/user'' @ drop 1 p) (\<lambda>p. Some (63, 3)) (\<lambda>p. True) ''model_data/yolo.h5'' 7 22 =
     ([Call_load_model ''model_data/yolo.h5''],
      Inl (AssertionError ''Mismatch between model and given anchor and class sizes''))"
  by (simp add: generate_model_def expanduser_def startswith_def endswith_def float_eval)


subsection \<open>Preprocessing\<close>

text \<open>
  C8. For a fixed target size of which one component is not a multiple of 32,
  \<^verbatim>\<open>detect_image\<close> fails with the assertion error before any image-processing call is
  made; when both components are multiples of 32 the check passes and the image is
  letterboxed to the (reversed) target size.
\<close>

theorem boxed_image_fixed_size_check:
  "(s0 mod 32 \<noteq> 0 \<or> s1 mod 32 \<noteq> 0 \<longrightarrow>
      boxed_image (Some s0, Some s1) img = ([], Inl (AssertionError ''Multiples of 32 required''))) \<and>
   (s0 mod 32 = 0 \<and> s1 mod 32 = 0 \<longrightarrow>
      boxed_image (Some s0, Some s1) img =
        ([Call_letterbox_image img (s1, s0)], letterbox_image img (s1, s0)))"
  by (simp add: boxed_image_def)

theorem boxed_image_fixed_size_check_witness:
  "boxed_image (Some 416, Some 400) \<lparr>width = 640, height = 480\<rparr> =
     ([], Inl (AssertionError ''Multiples of 32 required'')) \<and>
   boxed_image (Some 400, Some 416) \<lparr>width = 640, height = 480\<rparr> =
     ([], Inl (AssertionError ''Multiples of 32 required'')) \<and>
   boxed_image (Some 416, Some 416) \<lparr>width = 640, height = 480\<rparr> =
     ([Call_letterbox_image \<lparr>width = 640, height = 480\<rparr> (416, 416)],
      Inr \<lparr>lb_size = (416, 416), lb_scale = 13 / 20, lb_inner = (416, 312), lb_offset = (0, 52)\<rparr>)"
  using boxed_image_fixed_size_check [of 416 400 "\<lparr>width = 640, height = 480\<rparr>"]
        boxed_image_fixed_size_check [of 400 416 "\<lparr>width = 640, height = 480\<rparr>"]
        boxed_image_fixed_size_check [of 416 416 "\<lparr>width = 640, height = 480\<rparr>"]
  by (simp add: letterbox_image_def py_int_def)

text \<open>
  C3, as stated: with the sentinel size the source is cropped, with no padding and no
  scaling. It fails: a 64 by 40 image is letterboxed to 64 by 32, its content scaled by
  4/5 to 51 by 32 and pasted 6 pixels from the left, with padding on both sides.
\<close>

theorem boxed_image_sentinel_counterexample:
  "boxed_image (None, None) \<lparr>width = 64, height = 40\<rparr> =
     ([Call_letterbox_image \<lparr>width = 64, height = 40\<rparr> (64, 32)],
      Inr \<lparr>lb_size = (64, 32), lb_scale = 4 / 5, lb_inner = (51, 32), lb_offset = (6, 0)\<rparr>) \<and>
   \<not> crop_only \<lparr>lb_size = (64, 32), lb_scale = 4 / 5, lb_inner = (51, 32), lb_offset = (6, 0)\<rparr>"
  by (simp add: boxed_image_def Let_def letterbox_image_def py_int_def crop_only_def)

text \<open>
  C3, amended: with the sentinel size the target is the nearest lower multiple of 32 of the
  source's width and of its height, and the source is letterboxed to that target by the
  same call as for a fixed size: preprocessing gives what the fixed path gives for that
  target, so the content is scaled by the uniform factor and padded, not cropped. The
  content is left as it is when both sides of the source are positive multiples of 32.
\<close>

theorem boxed_image_sentinel_target:
  "boxed_image (None, None) img =
     ([Call_letterbox_image img (width img - width img mod 32, height img - height img mod 32)],
      letterbox_image img (width img - width img mod 32, height img - height img mod 32)) \<and>
   (width img - width img mod 32) mod 32 = 0 \<and>
   width img - width img mod 32 \<le> width img \<and> width img < width img - width img mod 32 + 32 \<and>
   (height img - height img mod 32) mod 32 = 0 \<and>
   height img - height img mod 32 \<le> height img \<and> height img < height img - height img mod 32 + 32 \<and>
   boxed_image (Some (height img - height img mod 32), Some (width img - width img mod 32)) img =
     boxed_image (None, None) img \<and>
   (0 < width img \<and> 0 < height img \<and> width img mod 32 = 0 \<and> height img mod 32 = 0 \<longrightarrow>
      snd (boxed_image (None, None) img) =
        Inr \<lparr>lb_size = (width img, height img), lb_scale = 1,
             lb_inner = (width img, height img), lb_offset = (0, 0)\<rparr>)"
proof -
  have m: "(x - x mod 32) mod 32 = 0" for x :: int
    by (simp add: minus_mod_eq_mult_div)
  have b: "x - x mod 32 \<le> x \<and> x < x - x mod 32 + 32" for x :: int
    using pos_mod_sign [of 32 x] pos_mod_bound [of 32 x] by simp
  have f: "boxed_image (Some (height img - height img mod 32), Some (width img - width img mod 32)) img =
     boxed_image (None, None) img"
    by (simp add: boxed_image_def Let_def m)
  have u: "0 < width img \<and> 0 < height img \<and> width img mod 32 = 0 \<and> height img mod 32 = 0 \<longrightarrow>
      snd (boxed_image (None, None) img) =
        Inr \<lparr>lb_size = (width img, height img), lb_scale = 1,
             lb_inner = (width img, height img), lb_offset = (0, 0)\<rparr>"
    by (simp add: boxed_image_def Let_def letterbox_image_def py_int_def)
  show ?thesis
    using m [of "width img"] m [of "height img"] b [of "width img"] b [of "height img"] f u
    by (simp add: boxed_image_def Let_def)
qed

theorem boxed_image_sentinel_target_witness:
  "boxed_image (None, None) \<lparr>width = 64, height = 40\<rparr> =
     boxed_image (Some 32, Some 64) \<lparr>width = 64, height = 40\<rparr> \<and>
   snd (boxed_image (None, None) \<lparr>width = 64, height = 96\<rparr>) =
     Inr \<lparr>lb_size = (64, 96), lb_scale = 1, lb_inner = (64, 96), lb_offset = (0, 0)\<rparr>"
  using boxed_image_sentinel_target [of "\<lparr>width = 64, height = 40\<rparr>"]
        boxed_image_sentinel_target [of "\<lparr>width = 64, height = 96\<rparr>"]
  by (simp add: letterbox_image_def py_int_def)

subsection \<open>Colour palette\<close>

lemma hsv_to_rgb_unit_range:
  assumes "0 \<le> h" and "h \<le> 1" and "hsv_to_rgb h 1 1 = (r, g, b)"
  shows "0 \<le> r \<and> r \<le> 1 \<and> 0 \<le> g \<and> g \<le> 1 \<and> 0 \<le> b \<and> b \<le> 1"
proof -
  define y where "y = binary64 (h * 6)"
  define f where "f = binary64 (y - of_int (py_int y))"
  define q where "q = binary64 (binary64 (1 - binary64 f))"
  define t where "t = binary64 (binary64 (1 - binary64 (binary64 (1 - f))))"
  have y0: "0 \<le> y" unfolding y_def using binary64_between [of 0 "h * 6" 6] assms by simp
  then have "0 \<le> y - of_int (py_int y)" "y - of_int (py_int y) \<le> 1"
    unfolding py_int_def by (simp_all; linarith)+
  then have f: "0 \<le> f \<and> f \<le> 1" unfolding f_def by (rule binary64_unit)
  have u: "0 \<le> z \<and> z \<le> 1 \<Longrightarrow> 0 \<le> binary64 z \<and> binary64 z \<le> 1" for z
    using binary64_unit by blast
  have c: "0 \<le> z \<and> z \<le> 1 \<Longrightarrow> 0 \<le> 1 - z \<and> 1 - z \<le> 1" for z :: real
    by simp
  have q: "0 \<le> q \<and> q \<le> 1" unfolding q_def using f by (intro u c)
  have t: "0 \<le> t \<and> t \<le> 1" unfolding t_def using f by (intro u c)
  from assms(3) have "(r, g, b) \<in> {(1, t, 0), (q, 1, 0), (0, 1, t), (0, q, 1), (t, 0, 1), (1, 0, q)}"
    unfolding hsv_to_rgb_def Let_def y_def [symmetric] f_def [symmetric]
    by (auto simp: q_def t_def split: if_splits)
  with q t show ?thesis by auto
qed

lemma py_int_255_range:
  assumes "0 \<le> c" and "c \<le> 1"
  shows "0 \<le> py_int (binary64 (c * 255)) \<and> py_int (binary64 (c * 255)) \<le> 255"
proof -
  have "real_of_int 0 \<le> c * 255" "c * 255 \<le> real_of_int 255" using assms by simp_all
  from binary64_between [OF this] have "0 \<le> binary64 (c * 255)" "binary64 (c * 255) \<le> 255"
    by simp_all
  then show ?thesis unfolding py_int_def by (simp add: floor_le_iff le_floor_iff)
qed

lemma is_rgb8_colors_unshuffled: "c \<in> set (colors_unshuffled n) \<Longrightarrow> is_rgb8 c"
proof -
  assume "c \<in> set (colors_unshuffled n)"
  then obtain x where x: "x < n" and c: "c = to_255 (hsv_to_rgb (binary64 (real x / real n)) 1 1)"
    by (auto simp: colors_unshuffled_def hsv_tuples_def)
  obtain r g b where rgb: "hsv_to_rgb (binary64 (real x / real n)) 1 1 = (r, g, b)"
    by (cases "hsv_to_rgb (binary64 (real x / real n)) 1 1") auto
  have "0 \<le> real x / real n" "real x / real n \<le> 1" using x by simp_all
  then have "0 \<le> binary64 (real x / real n)" "binary64 (real x / real n) \<le> 1"
    using binary64_unit by blast+
  from hsv_to_rgb_unit_range [OF this rgb] show ?thesis
    by (simp add: c rgb to_255_def is_rgb8_def py_int_255_range)
qed

lemma length_colors_unshuffled: "length (colors_unshuffled n) = n"
  by (simp add: colors_unshuffled_def hsv_tuples_def)

text \<open>The unshuffled palette of five classes; the second colour is (203, 255, 0).\<close>

lemma hue_colors_5:
  "to_255 (hsv_to_rgb (binary64 0) 1 1) = (255, 0, 0)"
  "to_255 (hsv_to_rgb (binary64 (1 / 5)) 1 1) = (203, 255, 0)"
  "to_255 (hsv_to_rgb (binary64 (2 / 5)) 1 1) = (0, 255, 102)"
  "to_255 (hsv_to_rgb (binary64 (3 / 5)) 1 1) = (0, 102, 255)"
  "to_255 (hsv_to_rgb (binary64 (4 / 5)) 1 1) = (204, 0, 255)"
  by (simp_all add: to_255_def hsv_to_rgb_def py_int_def float_eval)

lemma colors_unshuffled_5:
  "colors_unshuffled 5 = [(255, 0, 0), (203, 255, 0), (0, 255, 102), (0, 102, 255), (204, 0, 255)]"
proof -
  have "colors_unshuffled 5 =
      map (\<lambda>x. to_255 (hsv_to_rgb (binary64 (real x / real 5)) 1 1)) [0, 1, 2, 3, 4]"
    by (simp add: colors_unshuffled_def hsv_tuples_def upt_rec)
  then show ?thesis using hue_colors_5 by simp
qed

text \<open>
  C4, as stated, part (b): the global random state is restored after the palette is
  generated. It fails: a generator in state 42 before the call is in the state that
  \<^verbatim>\<open>np.random.seed(None)\<close> installs (here 7) after it. The generator of the example
  has a number as its state, \<open>seed n\<close> installs \<open>n\<close>, and the shuffle reverses the list
  and advances the state by one.
\<close>

theorem generate_colors_reseeded_counterexample:
  "snd (generate_colors (\<lambda>n. n) (\<lambda>r xs. (rev xs, Suc r)) 7 3 (42 :: nat)) = 7 \<and>
   snd (generate_colors (\<lambda>n. n) (\<lambda>r xs. (rev xs, Suc r)) 7 3 (42 :: nat)) \<noteq> 42"
  by (simp add: generate_colors_def Let_def split_beta)

text \<open>
  C4, amended: the palette is what \<^verbatim>\<open>np.random.shuffle\<close> returns, from the state that
  \<^verbatim>\<open>np.random.seed(10101)\<close> installs, for the list of the N colours of the evenly spaced
  hue sweep \<open>x / N\<close>. For a shuffle that permutes its argument it is a permutation of
  these N colours, each a valid 8-bit RGB triple. It is the same for every state of the
  generator on entry and every entropy, so two constructions with the same N give the
  identical palette. Afterwards the generator is in the state \<^verbatim>\<open>np.random.seed(None)\<close>
  installs from fresh entropy, whatever its state was before: the earlier state is not
  restored.
\<close>

theorem generate_colors_palette:
  assumes "\<forall>r xs. mset (fst (shuffle r xs)) = mset xs"
  shows "fst (generate_colors seed shuffle fresh n g) =
           fst (shuffle (seed 10101) (colors_unshuffled n)) \<and>
         mset (fst (generate_colors seed shuffle fresh n g)) = mset (colors_unshuffled n) \<and>
         colors_unshuffled n =
           map (\<lambda>x. to_255 (hsv_to_rgb (binary64 (real x / real n)) 1 1)) [0..<n] \<and>
         length (fst (generate_colors seed shuffle fresh n g)) = n \<and>
         (\<forall>c \<in> set (fst (generate_colors seed shuffle fresh n g)). is_rgb8 c) \<and>
         fst (generate_colors seed shuffle fresh n g) = fst (generate_colors seed shuffle fresh' n g') \<and>
         snd (generate_colors seed shuffle fresh n g) = fresh"
proof -
  have eq: "fst (generate_colors seed shuffle fr n gg) = fst (shuffle (seed 10101) (colors_unshuffled n))"
    for fr gg
    by (simp add: generate_colors_def Let_def split_beta)
  have m: "mset (fst (generate_colors seed shuffle fresh n g)) = mset (colors_unshuffled n)"
    using assms by (simp add: eq)
  have l: "length (fst (generate_colors seed shuffle fresh n g)) = n"
    using mset_eq_length [OF m] by (simp add: length_colors_unshuffled)
  have s: "set (fst (generate_colors seed shuffle fresh n g)) = set (colors_unshuffled n)"
    using mset_eq_setD [OF m] .
  have u: "colors_unshuffled n =
      map (\<lambda>x. to_255 (hsv_to_rgb (binary64 (real x / real n)) 1 1)) [0..<n]"
    by (simp add: colors_unshuffled_def hsv_tuples_def)
  have f: "snd (generate_colors seed shuffle fresh n g) = fresh"
    by (simp add: generate_colors_def Let_def split_beta)
  have r: "\<forall>c \<in> set (fst (generate_colors seed shuffle fresh n g)). is_rgb8 c"
    using s is_rgb8_colors_unshuffled by blast
  have d: "fst (generate_colors seed shuffle fresh n g) = fst (generate_colors seed shuffle fresh' n g')"
    by (simp only: eq)
  from eq [of fresh g] m u l r d f show ?thesis by (intro conjI)
qed

theorem generate_colors_palette_witness:
  "fst (generate_colors (\<lambda>n. n) (\<lambda>r xs. (rev xs, Suc r)) 7 5 (42 :: nat)) =
     [(204, 0, 255), (0, 102, 255), (0, 255, 102), (203, 255, 0), (255, 0, 0)] \<and>
   snd (generate_colors (\<lambda>n. n) (\<lambda>r xs. (rev xs, Suc r)) 7 5 (42 :: nat)) = 7"
proof -
  have h: "\<forall>r xs. mset (fst ((\<lambda>(r :: nat) (xs :: (int \<times> int \<times> int) list). (rev xs, Suc r)) r xs)) = mset xs"
    by simp
  from generate_colors_palette [OF h, of "\<lambda>n. n" 7 5 42] show ?thesis
    by (simp add: colors_unshuffled_5)
qed

subsection \<open>The edges of a rendered box\<close>

text \<open>
  Where the sum \<open>v + 0.5\<close> is exact, rounding half up gives the nearest integer, a tie
  going to the larger one; it is exact for whole coordinates and at ties below \<open>2 ^ 22\<close>
  in both float types. Where the sum is rounded the result can be one more: the largest
  binary64 value below one half goes to 1.
\<close>

lemma float_round_half_small:
  "\<bar>k\<bar> < 2 ^ 24 \<Longrightarrow> float_round ft (of_int k / 2) = of_int k / 2"
  by (rule float_round_half) (cases ft; simp; linarith)

lemma half_exact:
  assumes "\<bar>N\<bar> < 2 ^ 22"
  shows "float_round ft (real_of_int N + 1 / 2) = real_of_int N + 1 / 2"
proof -
  have "\<bar>2 * N + 1\<bar> < 2 ^ 24" using assms by simp
  from float_round_half_small [OF this, of ft] show ?thesis
    by (simp add: add_divide_distrib)
qed

lemma int_exact:
  assumes "\<bar>N\<bar> < 2 ^ 24"
  shows "float_round ft (real_of_int N) = real_of_int N"
  using float_round_of_int [of N ft] assms by (cases ft) auto

lemma round_half_up_upper:
  assumes "v \<le> of_int N" and "\<bar>N\<bar> < 2 ^ 22"
  shows "round_half_up ft v \<le> N"
proof -
  have "v + 1 / 2 \<le> real_of_int N + 1 / 2" using assms(1) by simp
  from float_round_mono [OF this, of ft]
  have "float_round ft (v + 1 / 2) \<le> real_of_int N + 1 / 2"
    by (simp only: half_exact [OF assms(2)])
  then show ?thesis unfolding round_half_up_def by linarith
qed

lemma round_half_up_lower:
  assumes "of_int N \<le> v" and "\<bar>N\<bar> < 2 ^ 22"
  shows "N \<le> round_half_up ft v"
proof -
  have "real_of_int N + 1 / 2 \<le> v + 1 / 2" using assms(1) by simp
  from float_round_mono [OF this, of ft]
  have "real_of_int N + 1 / 2 \<le> float_round ft (v + 1 / 2)"
    by (simp only: half_exact [OF assms(2)])
  then show ?thesis unfolding round_half_up_def by linarith
qed

lemma round_half_up_negative: "v < 0 \<Longrightarrow> round_half_up ft v \<le> 0"
  using round_half_up_upper [of v 0 ft] by simp

lemma round_half_up_of_int: "\<bar>n\<bar> < 2 ^ 22 \<Longrightarrow> round_half_up ft (of_int n) = n"
  unfolding round_half_up_def by (simp only: half_exact) linarith

lemma round_half_up_tie: "\<bar>n\<bar> < 2 ^ 22 \<Longrightarrow> round_half_up ft (of_int n + 1 / 2) = n + 1"
proof -
  assume "\<bar>n\<bar> < 2 ^ 22"
  then have "\<bar>n + 1\<bar> < 2 ^ 24" by simp
  from int_exact [OF this, of ft]
  have e: "float_round ft (real_of_int (n + 1)) = real_of_int (n + 1)" .
  have s: "real_of_int n + 1 / 2 + 1 / 2 = real_of_int (n + 1)" by simp
  show ?thesis unfolding round_half_up_def s e by (rule floor_of_int)
qed

lemma round_half_up_nearest:
  assumes "float_round ft (v + 1 / 2) = v + 1 / 2"
  shows "real_of_int (round_half_up ft v) - 1 / 2 \<le> v \<and> v < real_of_int (round_half_up ft v) + 1 / 2"
  unfolding round_half_up_def assms by linarith

lemma round_half_up_below_half:
  "round_half_up Float64 (9007199254740991 / 18014398509481984) = 1"
  by (simp add: round_half_up_def float_round_def quantum_def exponent_def round_half_even_def
        compute_bitlen Let_def)

lemma in_int32_small: "\<bar>k\<bar> < 2 ^ 22 \<Longrightarrow> in_int32 k"
  by (auto simp: in_int32_def)

text \<open>The equations that evaluate \<open>round_half_up\<close> at a numeral.\<close>

lemmas round_half_up_eval = round_half_up_def float_round_def quantum_def exponent_def
  round_half_even_def compute_bitlen Let_def

text \<open>
  C7, as stated: every clamped coordinate lies in \<open>[0, image dimension)\<close>. It fails for
  a box that reaches below the image: on a 100 by 100 image the bottom edge 120 becomes
  100, the height itself, which is outside the half-open range.
\<close>

theorem clamp_box_out_of_bounds_counterexample:
  "clamp_box Float32 int32_indefinite (-5, 10, 120, 50) (100, 100) = (0, 10, 100, 50) \<and>
   \<not> within_image (clamp_box Float32 int32_indefinite (-5, 10, 120, 50) (100, 100)) (100, 100)"
proof -
  have "clamp_box Float32 int32_indefinite (-5, 10, 120, 50) (100, 100) = (0, 10, 100, 50)"
    by (simp only: clamp_box_def prod.case)
       (simp add: astype_int32_def in_int32_def round_half_up_eval)
  then show ?thesis by (simp add: within_image_def)
qed

text \<open>
  Beyond the int32 range the cast decides: with the x86 conversion a coordinate of
  3000000000 gives top 0 and bottom -2147483648 on a 100 by 100 image.
\<close>

lemma clamp_box_beyond_int32:
  "clamp_box ft int32_indefinite (3000000000, 10, 3000000000, 50) (100, 100) =
     (0, 10, - 2147483648, 50)"
  by (cases ft; simp only: clamp_box_def prod.case)
     (simp_all add: astype_int32_def in_int32_def int32_indefinite_def round_half_up_eval)

text \<open>
  C7, amended: each edge is rounded half up, cast to int32 and clamped on one side only:
  top and left are raised to at least 0, bottom and right are lowered to at most the
  image height and width, both inclusive. So top and left are never negative and bottom
  and right never exceed the height and width. For an edge whose rounded value is in the
  int32 range: a negative top or left becomes 0, and a bottom or right beyond an image
  side below \<open>2 ^ 22\<close> becomes the height or width. A box within these bounds, on an
  image with sides below \<open>2 ^ 22\<close> and with rounded values in the int32 range, is only
  rounded, and one with whole coordinates below \<open>2 ^ 22\<close> in magnitude is unchanged.
  An edge whose rounded value is outside the int32 range is clamped from what the
  platform's cast yields.
\<close>

theorem clamp_box_edges:
  assumes "clamp_box ft oob (t, l, b, r) (W, H) = (t', l', b', r')"
  shows "0 \<le> t' \<and> 0 \<le> l' \<and> b' \<le> H \<and> r' \<le> W \<and>
    (t < 0 \<and> in_int32 (round_half_up ft t) \<longrightarrow> t' = 0) \<and>
    (l < 0 \<and> in_int32 (round_half_up ft l) \<longrightarrow> l' = 0) \<and>
    (real_of_int H < b \<and> \<bar>H\<bar> < 2 ^ 22 \<and> in_int32 (round_half_up ft b) \<longrightarrow> b' = H) \<and>
    (real_of_int W < r \<and> \<bar>W\<bar> < 2 ^ 22 \<and> in_int32 (round_half_up ft r) \<longrightarrow> r' = W) \<and>
    (0 \<le> t \<and> 0 \<le> l \<and> b \<le> real_of_int H \<and> r \<le> real_of_int W \<and>
     \<bar>H\<bar> < 2 ^ 22 \<and> \<bar>W\<bar> < 2 ^ 22 \<and>
     in_int32 (round_half_up ft t) \<and> in_int32 (round_half_up ft l) \<and>
     in_int32 (round_half_up ft b) \<and> in_int32 (round_half_up ft r) \<longrightarrow>
       (t', l', b', r') =
         (round_half_up ft t, round_half_up ft l, round_half_up ft b, round_half_up ft r)) \<and>
    (\<forall>ti li bi ri. t = of_int ti \<and> l = of_int li \<and> b = of_int bi \<and> r = of_int ri \<and>
       0 \<le> ti \<and> 0 \<le> li \<and> bi \<le> H \<and> ri \<le> W \<and>
       \<bar>ti\<bar> < 2 ^ 22 \<and> \<bar>li\<bar> < 2 ^ 22 \<and> \<bar>bi\<bar> < 2 ^ 22 \<and> \<bar>ri\<bar> < 2 ^ 22 \<longrightarrow>
         (t', l', b', r') = (ti, li, bi, ri))"
proof -
  from assms have e:
    "t' = max 0 (astype_int32 oob (round_half_up ft t))"
    "l' = max 0 (astype_int32 oob (round_half_up ft l))"
    "b' = min H (astype_int32 oob (round_half_up ft b))"
    "r' = min W (astype_int32 oob (round_half_up ft r))"
    by (simp_all add: clamp_box_def)
  have c1: "0 \<le> t' \<and> 0 \<le> l' \<and> b' \<le> H \<and> r' \<le> W" by (simp add: e)
  have lo: "v < 0 \<Longrightarrow> in_int32 (round_half_up ft v) \<Longrightarrow>
      max 0 (astype_int32 oob (round_half_up ft v)) = 0" for v
    using round_half_up_negative [of v ft] by (simp add: astype_int32_def)
  have hi: "real_of_int N < v \<Longrightarrow> \<bar>N\<bar> < 2 ^ 22 \<Longrightarrow> in_int32 (round_half_up ft v) \<Longrightarrow>
      min N (astype_int32 oob (round_half_up ft v)) = N" for v N
    using round_half_up_lower [of N v ft] by (simp add: astype_int32_def)
  have keep_lo: "0 \<le> v \<Longrightarrow> in_int32 (round_half_up ft v) \<Longrightarrow>
      max 0 (astype_int32 oob (round_half_up ft v)) = round_half_up ft v" for v
    using round_half_up_lower [of 0 v ft] by (simp add: astype_int32_def)
  have keep_hi: "v \<le> real_of_int N \<Longrightarrow> \<bar>N\<bar> < 2 ^ 22 \<Longrightarrow> in_int32 (round_half_up ft v) \<Longrightarrow>
      min N (astype_int32 oob (round_half_up ft v)) = round_half_up ft v" for v N
    using round_half_up_upper [of v N ft] by (simp add: astype_int32_def)
  have int_lo: "0 \<le> k \<Longrightarrow> \<bar>k\<bar> < 2 ^ 22 \<Longrightarrow>
      max 0 (astype_int32 oob (round_half_up ft (of_int k))) = k" for k
    using in_int32_small [of k] by (simp add: round_half_up_of_int astype_int32_def)
  have int_hi: "k \<le> N \<Longrightarrow> \<bar>k\<bar> < 2 ^ 22 \<Longrightarrow>
      min N (astype_int32 oob (round_half_up ft (of_int k))) = k" for k N
    using in_int32_small [of k] by (simp add: round_half_up_of_int astype_int32_def)
  show ?thesis
    unfolding e using c1 [unfolded e] lo hi keep_lo keep_hi int_lo int_hi
    by (intro conjI impI allI; (elim conjE)?; simp)
qed

theorem clamp_box_edges_witness:
  "clamp_box Float32 int32_indefinite (-5, 10, 120, 50) (100, 100) = (0, 10, 100, 50) \<and>
   clamp_box Float32 int32_indefinite (10, 10, 50, 50) (100, 100) = (10, 10, 50, 50) \<and>
   clamp_box Float64 int32_indefinite (21 / 2, 10, 50, 50) (100, 100) = (11, 10, 50, 50)"
proof -
  have a: "clamp_box Float32 int32_indefinite (-5, 10, 120, 50) (100, 100) = (0, 10, 100, 50)"
    by (simp only: clamp_box_def prod.case)
       (simp add: astype_int32_def in_int32_def round_half_up_eval)
  have b: "clamp_box Float32 int32_indefinite (10, 10, 50, 50) (100, 100) = (10, 10, 50, 50)"
    by (simp only: clamp_box_def prod.case)
       (simp add: astype_int32_def in_int32_def round_half_up_eval)
  have c: "clamp_box Float64 int32_indefinite (21 / 2, 10, 50, 50) (100, 100) = (11, 10, 50, 50)"
    by (simp only: clamp_box_def prod.case)
       (simp add: astype_int32_def in_int32_def round_half_up_eval)
  from clamp_box_edges [OF a] clamp_box_edges [OF b] clamp_box_edges [OF c] a b c
  show ?thesis by simp
qed

subsection \<open>The frame-rate counter\<close>

text \<open>
  C9, as stated: once at least one time unit has accumulated the displayed value becomes
  the frame count and both counters are reset. It fails twice. When exactly one unit has
  accumulated, nothing is emitted and nothing is reset. When 5/2 units have accumulated,
  the value is emitted and the frame counter is reset, but the accumulator keeps 3/2.
\<close>

theorem fps_counter_step_threshold_counterexample:
  "1 \<le> accum_time \<lparr>accum_time = 0, curr_fps = 0, fps = ''FPS: ??'', prev_time = 0\<rparr> + (1 - 0) \<and>
   fps_counter_step 1 \<lparr>accum_time = 0, curr_fps = 0, fps = ''FPS: ??'', prev_time = 0\<rparr>
     = \<lparr>accum_time = 1, curr_fps = 1, fps = ''FPS: ??'', prev_time = 1\<rparr> \<and>
   fps_counter_step (5 / 2) \<lparr>accum_time = 0, curr_fps = 4, fps = ''FPS: ??'', prev_time = 0\<rparr>
     = \<lparr>accum_time = 3 / 2, curr_fps = 0, fps = ''FPS: 5'', prev_time = 5 / 2\<rparr>"
  by (simp add: fps_counter_step_def str_int_def str_nat.simps float_eval)

text \<open>
  The accumulator is the rounded sum: from the timer values 0.1 and 1.1 it is exactly 1,
  so nothing is emitted.
\<close>

lemma fps_counter_step_rounded_sum:
  "fps_counter_step (binary64 (11 / 10))
     \<lparr>accum_time = 0, curr_fps = 0, fps = ''FPS: ??'', prev_time = binary64 (1 / 10)\<rparr> =
   \<lparr>accum_time = 1, curr_fps = 1, fps = ''FPS: ??'', prev_time = binary64 (11 / 10)\<rparr>"
  by (simp add: fps_counter_step_def float_eval)

text \<open>
  C9, amended: in every iteration the elapsed time (the rounded difference of the timer
  values) is added to the accumulator (the sum rounded) and the frame counter is
  incremented; when the accumulator then exceeds one time unit (strictly), the displayed
  value becomes \<open>FPS: \<close> followed by the frame counter, the frame counter is reset to 0
  and the accumulator is reduced by one unit (not reset); otherwise the displayed value
  stays and both counters keep their new values. The timer values and the accumulator
  are at most \<open>2 ^ 1000\<close> in magnitude.
\<close>

theorem fps_counter_step_window:
  assumes "\<bar>t\<bar> \<le> 2 ^ 1000" and "\<bar>prev_time s\<bar> \<le> 2 ^ 1000" and "\<bar>accum_time s\<bar> \<le> 2 ^ 1000"
  shows "prev_time (fps_counter_step t s) = t \<and>
   (1 < binary64 (accum_time s + binary64 (t - prev_time s)) \<longrightarrow>
      fps (fps_counter_step t s) = ''FPS: '' @ str_int (curr_fps s + 1) \<and>
      curr_fps (fps_counter_step t s) = 0 \<and>
      accum_time (fps_counter_step t s) =
        binary64 (binary64 (accum_time s + binary64 (t - prev_time s)) - 1)) \<and>
   (binary64 (accum_time s + binary64 (t - prev_time s)) \<le> 1 \<longrightarrow>
      fps (fps_counter_step t s) = fps s \<and>
      curr_fps (fps_counter_step t s) = curr_fps s + 1 \<and>
      accum_time (fps_counter_step t s) = binary64 (accum_time s + binary64 (t - prev_time s)))"
  by (simp add: fps_counter_step_def Let_def)

theorem fps_counter_step_window_witness:
  "fps_counter_step (5 / 2) \<lparr>accum_time = 0, curr_fps = 4, fps = ''FPS: ??'', prev_time = 0\<rparr> =
     \<lparr>accum_time = 3 / 2, curr_fps = 0, fps = ''FPS: 5'', prev_time = 5 / 2\<rparr> \<and>
   fps_counter_step (1 / 2) \<lparr>accum_time = 0, curr_fps = 4, fps = ''FPS: ??'', prev_time = 0\<rparr> =
     \<lparr>accum_time = 1 / 2, curr_fps = 5, fps = ''FPS: ??'', prev_time = 1 / 2\<rparr> \<and>
   fps_counter_step 1 \<lparr>accum_time = 0, curr_fps = 0, fps = ''FPS: ??'', prev_time = 0\<rparr> =
     \<lparr>accum_time = 1, curr_fps = 1, fps = ''FPS: ??'', prev_time = 1\<rparr>"
proof -
  let ?s = "\<lparr>accum_time = 0, curr_fps = 4, fps = ''FPS: ??'', prev_time = 0\<rparr>"
  let ?s0 = "\<lparr>accum_time = 0, curr_fps = 0, fps = ''FPS: ??'', prev_time = 0\<rparr>"
  have a: "binary64 (5 / 2) = 5 / 2" "binary64 (3 / 2) = 3 / 2" "binary64 (1 / 2) = 1 / 2"
    by (simp_all add: float_eval)
  have h: "\<bar>5 / 2 :: real\<bar> \<le> 2 ^ 1000" "\<bar>1 / 2 :: real\<bar> \<le> 2 ^ 1000" "\<bar>1 :: real\<bar> \<le> 2 ^ 1000"
    "\<bar>prev_time ?s\<bar> \<le> 2 ^ 1000" "\<bar>accum_time ?s\<bar> \<le> 2 ^ 1000"
    "\<bar>prev_time ?s0\<bar> \<le> 2 ^ 1000" "\<bar>accum_time ?s0\<bar> \<le> 2 ^ 1000"
    by simp_all
  from fps_counter_step_window [OF h(1) h(4) h(5)]
       fps_counter_step_window [OF h(2) h(4) h(5)]
       fps_counter_step_window [OF h(3) h(6) h(7)]
  show ?thesis
    by (simp add: a str_int_def str_nat.simps fps_counter_step_def Let_def)
qed

end
